theory Spec2Isabelle
  imports Main
begin

section \<open>Values, exceptions and the process state\<close>

text \<open>
  The script \<^verbatim>\<open>generate_embedding.py\<close> is four statements:
  \<^verbatim>\<open>
  model = SentenceTransformer('all-MiniLM-L6-v2')
  text = sys.argv[1]
  embedding = model.encode([text])[0]
  print(json.dumps(embedding.tolist()))
  \<close>
  The three imports above them are taken to succeed. The model library and
  \<^verbatim>\<open>json\<close> are not part of the repository: the script is embedded over the three
  operations it calls, and \<^verbatim>\<open>json.dumps\<close> is modelled below as CPython defines it.

  A Python float is identified by what \<^verbatim>\<open>float.__repr__\<close> prints of it: the
  shortest decimal string that reads back as the same float. \<open>Finite neg m e\<close> is the
  float whose shortest decimal is \<open>m * 10^e\<close>, negated when \<open>neg\<close> holds;
  the three other constructors are the non-finite floats.
\<close>

datatype pyfloat = Finite bool nat int | NaN | PosInf | NegInf

text \<open>One row of the array that \<^verbatim>\<open>encode\<close> returns.\<close>

type_synonym ndarray = "pyfloat list"

text \<open>
  An uncaught exception ends the run. \<open>IndexError\<close> is what the script's own two
  subscripts raise; \<open>Raised n\<close> is an exception of class \<open>n\<close> raised inside a
  library call.
\<close>

datatype exn = IndexError | Raised string

text \<open>The operations a run performs, in the order it starts them.\<close>

datatype event = ModelLoad string | ArgRead | Inference "string list" | Serialize | Write

text \<open>
  The state of the process: \<open>world\<close> is everything outside the script that the model
  library may read or change (the network, the weight cache on disk, the device),
  \<open>stdout\<close> is the text written to standard output so far.
\<close>

record 'w proc =
  world :: 'w
  stdout :: string
  trace :: "event list"

text \<open>
  The three library operations the script calls. The model library is opaque: loading
  and encoding take the world and return a result or the name of the exception raised,
  and the world after the call. Neither writes to standard output.
  \<^verbatim>\<open>json.dumps\<close> is a pure function of its argument.
\<close>

record ('w, 'm) lib =
  SentenceTransformer :: "string \<Rightarrow> 'w \<Rightarrow> (string + 'm) \<times> 'w"
  encode :: "'m \<Rightarrow> string list \<Rightarrow> 'w \<Rightarrow> (string + ndarray list) \<times> 'w"
  dumps :: "pyfloat list \<Rightarrow> string + string"

type_synonym ('w, 'a) act = "'w proc \<Rightarrow> (exn + 'a) \<times> 'w proc"

text \<open>Statement sequencing: an exception skips the rest of the script.\<close>

definition and_then :: "('w, 'a) act \<Rightarrow> ('a \<Rightarrow> ('w, 'b) act) \<Rightarrow> ('w, 'b) act" where
  "and_then m f s = (case m s of (Inl e, s') \<Rightarrow> (Inl e, s') | (Inr a, s') \<Rightarrow> f a s')"

definition log_event :: "event \<Rightarrow> 'w proc \<Rightarrow> 'w proc" where
  "log_event ev s = s\<lparr>trace := trace s @ [ev]\<rparr>"

text \<open>A call into the model library: it runs on the world and may raise.\<close>

definition lib_call :: "event \<Rightarrow> ('w \<Rightarrow> (string + 'a) \<times> 'w) \<Rightarrow> ('w, 'a) act" where
  "lib_call ev f s =
     (case f (world s) of
        (Inl n, w') \<Rightarrow> (Inl (Raised n), (log_event ev s)\<lparr>world := w'\<rparr>)
      | (Inr a, w') \<Rightarrow> (Inr a, (log_event ev s)\<lparr>world := w'\<rparr>))"

text \<open>\<^verbatim>\<open>xs[i]\<close> for a non-negative index: out of range raises \<open>IndexError\<close>.\<close>

definition getitem :: "'a list \<Rightarrow> nat \<Rightarrow> exn + 'a" where
  "getitem xs i = (if i < length xs then Inr (xs ! i) else Inl IndexError)"

definition MODEL_NAME :: string where
  "MODEL_NAME = ''all-MiniLM-L6-v2''"

text \<open>\<^verbatim>\<open>model = SentenceTransformer('all-MiniLM-L6-v2')\<close>\<close>

definition load_model :: "('w, 'm) lib \<Rightarrow> ('w, 'm) act" where
  "load_model L = lib_call (ModelLoad MODEL_NAME) (SentenceTransformer L MODEL_NAME)"

text \<open>\<^verbatim>\<open>text = sys.argv[1]\<close>; \<open>argv ! 0\<close> is the script's name.\<close>

definition read_arg :: "string list \<Rightarrow> ('w, string) act" where
  "read_arg argv s = (getitem argv 1, log_event ArgRead s)"

text \<open>\<^verbatim>\<open>model.encode([text])\<close>\<close>

definition run_encode :: "('w, 'm) lib \<Rightarrow> 'm \<Rightarrow> string list \<Rightarrow> ('w, ndarray list) act" where
  "run_encode L model texts = lib_call (Inference texts) (encode L model texts)"

text \<open>\<^verbatim>\<open>...[0]\<close> on the encode result.\<close>

definition first_row :: "ndarray list \<Rightarrow> ('w, ndarray) act" where
  "first_row rows s = (getitem rows 0, s)"

text \<open>\<^verbatim>\<open>embedding.tolist()\<close>: the row as a list of Python floats.\<close>

definition tolist :: "ndarray \<Rightarrow> pyfloat list" where
  "tolist v = v"

text \<open>\<^verbatim>\<open>json.dumps(...)\<close>\<close>

definition serialize :: "('w, 'm) lib \<Rightarrow> pyfloat list \<Rightarrow> ('w, string) act" where
  "serialize L xs s =
     (case dumps L xs of
        Inl n \<Rightarrow> (Inl (Raised n), log_event Serialize s)
      | Inr js \<Rightarrow> (Inr js, log_event Serialize s))"

text \<open>\<^verbatim>\<open>print(...)\<close>: the text and a newline go to standard output.\<close>

definition print :: "string \<Rightarrow> ('w, unit) act" where
  "print js s = (Inr (), (log_event Write s)\<lparr>stdout := stdout s @ js @ [CHR 0x0A]\<rparr>)"

text \<open>The script, statement by statement, started in world \<open>w\<close> with nothing printed.\<close>

definition generate_embedding ::
    "('w, 'm) lib \<Rightarrow> string list \<Rightarrow> 'w \<Rightarrow> (exn + unit) \<times> 'w proc" where
  "generate_embedding L argv w =
     and_then (load_model L) (\<lambda>model.
     and_then (read_arg argv) (\<lambda>text.
     and_then (run_encode L model [text]) (\<lambda>rows.
     and_then (first_row rows) (\<lambda>embedding.
     and_then (serialize L (tolist embedding)) (\<lambda>js.
     print js)))))
       \<lparr>world = w, stdout = [], trace = []\<rparr>"

text \<open>The exit status of the interpreter: 1 after an uncaught exception, 0 otherwise.\<close>

definition exit_status :: "(exn + unit) \<Rightarrow> nat" where
  "exit_status r = (case r of Inl e \<Rightarrow> 1 | Inr u \<Rightarrow> 0)"

definition result_of :: "('w, 'm) lib \<Rightarrow> string list \<Rightarrow> 'w \<Rightarrow> exn + unit" where
  "result_of L argv w = fst (generate_embedding L argv w)"

definition stdout_of :: "('w, 'm) lib \<Rightarrow> string list \<Rightarrow> 'w \<Rightarrow> string" where
  "stdout_of L argv w = stdout (snd (generate_embedding L argv w))"

definition trace_of :: "('w, 'm) lib \<Rightarrow> string list \<Rightarrow> 'w \<Rightarrow> event list" where
  "trace_of L argv w = trace (snd (generate_embedding L argv w))"

section \<open>The standard library: \<^verbatim>\<open>json.dumps\<close> on a list of floats\<close>

text \<open>
  \<^verbatim>\<open>float.__repr__\<close> prints the shortest digits of the float, with the decimal
  point after \<open>decpt\<close> of them. It switches to exponent notation when
  \<open>decpt \<le> -4\<close> or \<open>decpt > 16\<close>, writes the exponent with a sign and at least two
  digits, and otherwise keeps a digit on both sides of the point
  (\<^verbatim>\<open>1.0\<close>, \<^verbatim>\<open>0.001\<close>, \<^verbatim>\<open>1e-05\<close>, \<^verbatim>\<open>1e+16\<close>).
\<close>

definition digit_char :: "nat \<Rightarrow> char" where
  "digit_char d = ''0123456789'' ! d"

fun dec_digits :: "nat \<Rightarrow> nat list" where
  "dec_digits n = (if n < 10 then [n] else dec_digits (n div 10) @ [n mod 10])"

declare dec_digits.simps [simp del]

definition digits_str :: "nat list \<Rightarrow> string" where
  "digits_str ds = map digit_char ds"

definition strip_trailing_zeros :: "nat list \<Rightarrow> nat list" where
  "strip_trailing_zeros ds = rev (dropWhile (\<lambda>d. d = 0) (rev ds))"

text \<open>The shortest digits of \<open>m * 10^e\<close>; zero has the one digit 0 and \<open>decpt = 1\<close>.\<close>

definition float_digits :: "nat \<Rightarrow> nat list" where
  "float_digits m = (if m = 0 then [0] else strip_trailing_zeros (dec_digits m))"

definition float_decpt :: "nat \<Rightarrow> int \<Rightarrow> int" where
  "float_decpt m e = (if m = 0 then 1 else int (length (dec_digits m)) + e)"

definition fixed_form :: "nat list \<Rightarrow> int \<Rightarrow> string" where
  "fixed_form ds decpt =
     (if decpt \<le> 0 then ''0.'' @ replicate (nat (- decpt)) (CHR ''0'') @ digits_str ds
      else if nat decpt < length ds
        then digits_str (take (nat decpt) ds) @ ''.'' @ digits_str (drop (nat decpt) ds)
      else digits_str ds @ replicate (nat decpt - length ds) (CHR ''0'') @ ''.0'')"

definition exp_str :: "int \<Rightarrow> string" where
  "exp_str x =
     (if x < 0 then ''-'' else ''+'') @
     (if \<bar>x\<bar> < 10 then ''0'' else []) @ digits_str (dec_digits (nat \<bar>x\<bar>))"

definition exp_form :: "nat list \<Rightarrow> int \<Rightarrow> string" where
  "exp_form ds decpt =
     digit_char (hd ds) # (if 1 < length ds then ''.'' @ digits_str (tl ds) else []) @
     ''e'' @ exp_str (decpt - 1)"

definition float_repr :: "bool \<Rightarrow> nat \<Rightarrow> int \<Rightarrow> string" where
  "float_repr neg m e =
     (let ds = float_digits m; decpt = float_decpt m e
      in (if neg then ''-'' else []) @
         (if decpt \<le> - 4 \<or> 16 < decpt then exp_form ds decpt else fixed_form ds decpt))"

text \<open>
  The encoder's \<^verbatim>\<open>floatstr\<close>: a finite float is printed by \<^verbatim>\<open>float.__repr__\<close>;
  a non-finite one is printed as \<^verbatim>\<open>NaN\<close>, \<^verbatim>\<open>Infinity\<close> or \<^verbatim>\<open>-Infinity\<close>,
  unless \<^verbatim>\<open>allow_nan\<close> is false, when it raises \<^verbatim>\<open>ValueError\<close>.
\<close>

fun floatstr :: "bool \<Rightarrow> pyfloat \<Rightarrow> string + string" where
  "floatstr allow_nan (Finite neg m e) = Inr (float_repr neg m e)"
| "floatstr allow_nan NaN = (if allow_nan then Inr ''NaN'' else Inl ''ValueError'')"
| "floatstr allow_nan PosInf = (if allow_nan then Inr ''Infinity'' else Inl ''ValueError'')"
| "floatstr allow_nan NegInf = (if allow_nan then Inr ''-Infinity'' else Inl ''ValueError'')"

fun encode_floats :: "bool \<Rightarrow> pyfloat list \<Rightarrow> string + string list" where
  "encode_floats allow_nan [] = Inr []"
| "encode_floats allow_nan (x # xs) =
     (case floatstr allow_nan x of
        Inl n \<Rightarrow> Inl n
      | Inr t \<Rightarrow> (case encode_floats allow_nan xs of
                   Inl n \<Rightarrow> Inl n
                 | Inr ts \<Rightarrow> Inr (t # ts)))"

text \<open>\<^verbatim>\<open>sep.join(ts)\<close>\<close>

fun join :: "string \<Rightarrow> string list \<Rightarrow> string" where
  "join sep [] = []"
| "join sep [t] = t"
| "join sep (t # u # ts) = t @ sep @ join sep (u # ts)"

text \<open>A list is written in brackets, its items separated by a comma and a space.\<close>

definition json_dumps_with :: "bool \<Rightarrow> pyfloat list \<Rightarrow> string + string" where
  "json_dumps_with allow_nan xs =
     (case encode_floats allow_nan xs of
        Inl n \<Rightarrow> Inl n
      | Inr ts \<Rightarrow> Inr (''['' @ join '', '' ts @ '']''))"

text \<open>The script passes no keyword argument, and \<^verbatim>\<open>allow_nan\<close> defaults to true.\<close>

definition json_dumps :: "pyfloat list \<Rightarrow> string + string" where
  "json_dumps xs = json_dumps_with True xs"

text \<open>The text of one float under the default settings.\<close>

definition float_text :: "pyfloat \<Rightarrow> string" where
  "float_text x = (case floatstr True x of Inl n \<Rightarrow> [] | Inr t \<Rightarrow> t)"

definition is_finite :: "pyfloat \<Rightarrow> bool" where
  "is_finite x = (case x of Finite neg m e \<Rightarrow> True | NaN \<Rightarrow> False | PosInf \<Rightarrow> False | NegInf \<Rightarrow> False)"

section \<open>What the specification calls valid JSON\<close>

text \<open>
  The grammar of RFC 8259 for a number,
  \<^verbatim>\<open>[ "-" ] int [ "." 1*DIGIT ] [ ("e" / "E") [ "+" / "-" ] 1*DIGIT ]\<close>
  with \<^verbatim>\<open>int = "0" / ( digit1-9 *DIGIT )\<close>, and for an array whose elements are
  numbers, with optional white space around every token.
\<close>

definition is_digit :: "char \<Rightarrow> bool" where
  "is_digit c = (c \<in> set ''0123456789'')"

definition is_ws :: "char \<Rightarrow> bool" where
  "is_ws c = (c \<in> set [CHR '' '', CHR 0x09, CHR 0x0A, CHR 0x0D])"

definition json_digits :: "string \<Rightarrow> bool" where
  "json_digits s = (s \<noteq> [] \<and> list_all is_digit s)"

definition json_int :: "string \<Rightarrow> bool" where
  "json_int s = (s = ''0'' \<or> (json_digits s \<and> hd s \<noteq> CHR ''0''))"

definition json_frac :: "string \<Rightarrow> bool" where
  "json_frac s = (s = [] \<or> (hd s = CHR ''.'' \<and> json_digits (tl s)))"

definition json_exp :: "string \<Rightarrow> bool" where
  "json_exp s =
     (s = [] \<or>
      (hd s \<in> set ''eE'' \<and>
       json_digits (if tl s \<noteq> [] \<and> hd (tl s) \<in> set ''+-'' then tl (tl s) else tl s)))"

definition json_number :: "string \<Rightarrow> bool" where
  "json_number s =
     (let u = (if s \<noteq> [] \<and> hd s = CHR ''-'' then tl s else s);
          mant = takeWhile (\<lambda>c. c \<notin> set ''eE'') u;
          ex = dropWhile (\<lambda>c. c \<notin> set ''eE'') u
      in json_int (takeWhile (\<lambda>c. c \<noteq> CHR ''.'') mant) \<and>
         json_frac (dropWhile (\<lambda>c. c \<noteq> CHR ''.'') mant) \<and>
         json_exp ex)"

definition trim :: "string \<Rightarrow> string" where
  "trim s = rev (dropWhile is_ws (rev (dropWhile is_ws s)))"

fun split_on :: "char \<Rightarrow> string \<Rightarrow> string \<Rightarrow> string list" where
  "split_on c acc [] = [rev acc]"
| "split_on c acc (x # xs) =
     (if x = c then rev acc # split_on c [] xs else split_on c (x # acc) xs)"

text \<open>
  \<open>json_array_of item s\<close> is the list of the element tokens of \<open>s\<close> when \<open>s\<close> is an
  array whose elements are all accepted by \<open>item\<close>, and \<open>None\<close> when it is not.
  The elements here are numbers or constants, so none of them holds a comma.
\<close>

definition json_array_of :: "(string \<Rightarrow> bool) \<Rightarrow> string \<Rightarrow> string list option" where
  "json_array_of item s =
     (let t = trim s in
      if 2 \<le> length t \<and> hd t = CHR ''['' \<and> last t = CHR '']'' then
        (let inner = butlast (tl t) in
         if trim inner = [] then Some []
         else (let toks = map trim (split_on (CHR '','') [] inner) in
               if list_all item toks then Some toks else None))
      else None)"

text \<open>A JSON text that is an array of numbers.\<close>

definition json_number_array :: "string \<Rightarrow> string list option" where
  "json_number_array s = json_array_of json_number s"

text \<open>One line: the text ends with its only newline.\<close>

definition single_line :: "string \<Rightarrow> bool" where
  "single_line out = (out \<noteq> [] \<and> last out = CHR 0x0A \<and> CHR 0x0A \<notin> set (butlast out))"

section \<open>Orderings of a trace, and libraries to run the script on\<close>

text \<open>\<open>never_before b a tr\<close>: in \<open>tr\<close>, \<open>b\<close> does not happen before the first \<open>a\<close>.\<close>

definition never_before :: "event \<Rightarrow> event \<Rightarrow> event list \<Rightarrow> bool" where
  "never_before b a tr = (b \<notin> set (takeWhile (\<lambda>x. x \<noteq> a) tr))"

text \<open>
  A model that loads at once and encodes every text as the row \<open>v\<close>; a machine
  that is offline with an empty cache; a model that runs out of memory while encoding;
  a serializer called with \<^verbatim>\<open>allow_nan=False\<close>; and a model whose loading
  changes the world (it counts the loads).
\<close>

definition stub_lib :: "ndarray \<Rightarrow> ('w, string) lib" where
  "stub_lib v =
     \<lparr>SentenceTransformer = (\<lambda>name w. (Inr name, w)),
      encode = (\<lambda>m texts w. (Inr (map (\<lambda>t. v) texts), w)),
      dumps = json_dumps\<rparr>"

definition offline_lib :: "('w, string) lib" where
  "offline_lib =
     \<lparr>SentenceTransformer = (\<lambda>name w. (Inl ''OSError'', w)),
      encode = (\<lambda>m texts w. (Inr (map (\<lambda>t. []) texts), w)),
      dumps = json_dumps\<rparr>"

definition oom_lib :: "('w, string) lib" where
  "oom_lib =
     \<lparr>SentenceTransformer = (\<lambda>name w. (Inr name, w)),
      encode = (\<lambda>m texts w. (Inl ''RuntimeError'', w)),
      dumps = json_dumps\<rparr>"

definition strict_lib :: "ndarray \<Rightarrow> ('w, string) lib" where
  "strict_lib v =
     \<lparr>SentenceTransformer = (\<lambda>name w. (Inr name, w)),
      encode = (\<lambda>m texts w. (Inr (map (\<lambda>t. v) texts), w)),
      dumps = json_dumps_with False\<rparr>"

definition counting_lib :: "ndarray \<Rightarrow> (nat, string) lib" where
  "counting_lib v =
     \<lparr>SentenceTransformer = (\<lambda>name w. (Inr name, Suc w)),
      encode = (\<lambda>m texts w. (Inr (map (\<lambda>t. v) texts), w)),
      dumps = json_dumps\<rparr>"

text \<open>
  A token with no comma and no white space in it, and the characters a JSON number is
  made of.
\<close>

definition plain_token :: "string \<Rightarrow> bool" where
  "plain_token t = (t \<noteq> [] \<and> list_all (\<lambda>c. c \<noteq> CHR '','' \<and> \<not> is_ws c) t)"

definition num_char :: "char \<Rightarrow> bool" where
  "num_char c = (is_digit c \<or> c \<in> set ''+-.eE'')"

section \<open>The outcomes of a run\<close>

text \<open>
  A run ends in one of six ways: the load raises, the argument is missing, the
  encoding raises, the encoding returns no row, the serializer raises, or the line is
  printed.
\<close>

text \<open>
  A run ends in one of six ways: the load raises, the argument is missing, the
  encoding raises, the encoding returns no row, the serializer raises, or the line is
  printed.
\<close>

lemma run_load_fail:
  assumes "SentenceTransformer L MODEL_NAME w = (Inl n, w1)"
  shows "generate_embedding L argv w =
           (Inl (Raised n), \<lparr>world = w1, stdout = [], trace = [ModelLoad MODEL_NAME]\<rparr>)"
  using assms
  by (simp add: generate_embedding_def and_then_def load_model_def lib_call_def log_event_def)

lemma run_no_arg:
  assumes "SentenceTransformer L MODEL_NAME w = (Inr m, w1)" and "length argv \<le> 1"
  shows "generate_embedding L argv w =
           (Inl IndexError, \<lparr>world = w1, stdout = [], trace = [ModelLoad MODEL_NAME, ArgRead]\<rparr>)"
  using assms
  by (simp add: generate_embedding_def and_then_def load_model_def lib_call_def log_event_def
      read_arg_def getitem_def)

lemma run_encode_fail:
  assumes "SentenceTransformer L MODEL_NAME w = (Inr m, w1)" and "1 < length argv"
    and "encode L m [argv ! 1] w1 = (Inl n, w2)"
  shows "generate_embedding L argv w =
           (Inl (Raised n), \<lparr>world = w2, stdout = [],
              trace = [ModelLoad MODEL_NAME, ArgRead, Inference [argv ! 1]]\<rparr>)"
  using assms
  by (simp add: generate_embedding_def and_then_def load_model_def lib_call_def log_event_def
      read_arg_def getitem_def run_encode_def)

lemma run_no_row:
  assumes "SentenceTransformer L MODEL_NAME w = (Inr m, w1)" and "1 < length argv"
    and "encode L m [argv ! 1] w1 = (Inr [], w2)"
  shows "generate_embedding L argv w =
           (Inl IndexError, \<lparr>world = w2, stdout = [],
              trace = [ModelLoad MODEL_NAME, ArgRead, Inference [argv ! 1]]\<rparr>)"
  using assms
  by (simp add: generate_embedding_def and_then_def load_model_def lib_call_def log_event_def
      read_arg_def getitem_def run_encode_def first_row_def)

lemma run_dumps_fail:
  assumes "SentenceTransformer L MODEL_NAME w = (Inr m, w1)" and "1 < length argv"
    and "encode L m [argv ! 1] w1 = (Inr (v # rest), w2)" and "dumps L v = Inl n"
  shows "generate_embedding L argv w =
           (Inl (Raised n), \<lparr>world = w2, stdout = [],
              trace = [ModelLoad MODEL_NAME, ArgRead, Inference [argv ! 1], Serialize]\<rparr>)"
  using assms
  by (simp add: generate_embedding_def and_then_def load_model_def lib_call_def log_event_def
      read_arg_def getitem_def run_encode_def first_row_def serialize_def tolist_def)

lemma run_ok:
  assumes "SentenceTransformer L MODEL_NAME w = (Inr m, w1)" and "1 < length argv"
    and "encode L m [argv ! 1] w1 = (Inr (v # rest), w2)" and "dumps L v = Inr js"
  shows "generate_embedding L argv w =
           (Inr (), \<lparr>world = w2, stdout = js @ [CHR 0x0A],
              trace = [ModelLoad MODEL_NAME, ArgRead, Inference [argv ! 1], Serialize, Write]\<rparr>)"
  using assms
  by (simp add: generate_embedding_def and_then_def load_model_def lib_call_def log_event_def
      read_arg_def getitem_def run_encode_def first_row_def serialize_def tolist_def print_def)

lemma run_outcomes [case_names load_fail no_arg encode_fail no_row dumps_fail ok]:
  obtains
    (load_fail) n w1 where "SentenceTransformer L MODEL_NAME w = (Inl n, w1)"
  | (no_arg) m w1 where "SentenceTransformer L MODEL_NAME w = (Inr m, w1)" "length argv \<le> 1"
  | (encode_fail) m w1 n w2 where "SentenceTransformer L MODEL_NAME w = (Inr m, w1)"
      "1 < length argv" "encode L m [argv ! 1] w1 = (Inl n, w2)"
  | (no_row) m w1 w2 where "SentenceTransformer L MODEL_NAME w = (Inr m, w1)"
      "1 < length argv" "encode L m [argv ! 1] w1 = (Inr [], w2)"
  | (dumps_fail) m w1 v rest w2 n where "SentenceTransformer L MODEL_NAME w = (Inr m, w1)"
      "1 < length argv" "encode L m [argv ! 1] w1 = (Inr (v # rest), w2)" "dumps L v = Inl n"
  | (ok) m w1 v rest w2 js where "SentenceTransformer L MODEL_NAME w = (Inr m, w1)"
      "1 < length argv" "encode L m [argv ! 1] w1 = (Inr (v # rest), w2)" "dumps L v = Inr js"
proof (cases "SentenceTransformer L MODEL_NAME w")
  case (Pair r1 w1)
  show thesis
  proof (cases r1)
    case (Inl n)
    with Pair load_fail show thesis by simp
  next
    case (Inr m)
    note m = this
    show thesis
    proof (cases "1 < length argv")
      case False
      with Pair m no_arg show thesis by simp
    next
      case True
      obtain r2 w2 where e: "encode L m [argv ! 1] w1 = (r2, w2)" by (cases "encode L m [argv ! 1] w1")
      show thesis
      proof (cases r2)
        case (Inl n)
        with Pair m True e encode_fail show thesis by simp
      next
        case (Inr rows)
        note rows = this
        show thesis
        proof (cases rows)
          case Nil
          with Pair m True e rows no_row show thesis by simp
        next
          case (Cons v rest)
          show thesis
          proof (cases "dumps L v")
            case (Inl n)
            with Pair m True e rows Cons dumps_fail show thesis by simp
          next
            case (Inr js)
            with Pair m True e rows Cons ok show thesis by simp
          qed
        qed
      qed
    qed
  qed
qed

text \<open>
  The result and the output of a run depend on the world only through what the load and
  the encoding return.
\<close>

lemma run_observable:
  "(result_of L argv w, stdout_of L argv w) =
     (case fst (SentenceTransformer L MODEL_NAME w) of
        Inl n \<Rightarrow> (Inl (Raised n), [])
      | Inr m \<Rightarrow>
          (case getitem argv 1 of
             Inl e \<Rightarrow> (Inl e, [])
           | Inr t \<Rightarrow>
               (case fst (encode L m [t] (snd (SentenceTransformer L MODEL_NAME w))) of
                  Inl n \<Rightarrow> (Inl (Raised n), [])
                | Inr rows \<Rightarrow>
                    (case getitem rows 0 of
                       Inl e \<Rightarrow> (Inl e, [])
                     | Inr v \<Rightarrow>
                         (case dumps L (tolist v) of
                            Inl n \<Rightarrow> (Inl (Raised n), [])
                          | Inr js \<Rightarrow> (Inr (), js @ [CHR 0x0A]))))))"
  by (simp add: result_of_def stdout_of_def generate_embedding_def and_then_def load_model_def
      lib_call_def log_event_def read_arg_def run_encode_def first_row_def serialize_def
      print_def split: prod.splits sum.splits)

lemma stub_lib_simps:
  "SentenceTransformer (stub_lib v) name w = (Inr name, w)"
  "encode (stub_lib v) m texts w = (Inr (map (\<lambda>t. v) texts), w)"
  "dumps (stub_lib v) = json_dumps"
  by (simp_all add: stub_lib_def)

lemma offline_lib_simps:
  "SentenceTransformer offline_lib name w = (Inl ''OSError'', w)"
  "dumps offline_lib = json_dumps"
  by (simp_all add: offline_lib_def)

lemma oom_lib_simps:
  "SentenceTransformer oom_lib name w = (Inr name, w)"
  "encode oom_lib m texts w = (Inl ''RuntimeError'', w)"
  by (simp_all add: oom_lib_def)

lemma strict_lib_simps:
  "SentenceTransformer (strict_lib v) name w = (Inr name, w)"
  "encode (strict_lib v) m texts w = (Inr (map (\<lambda>t. v) texts), w)"
  "dumps (strict_lib v) = json_dumps_with False"
  by (simp_all add: strict_lib_def)

lemma counting_lib_simps:
  "SentenceTransformer (counting_lib v) name w = (Inr name, Suc w)"
  "encode (counting_lib v) m texts w = (Inr (map (\<lambda>t. v) texts), w)"
  "dumps (counting_lib v) = json_dumps"
  by (simp_all add: counting_lib_def)

section \<open>The digits of a float\<close>

lemma dec_digits_nonempty: "dec_digits n \<noteq> []"
  by (subst dec_digits.simps) simp

lemma dec_digits_lt10: "d \<in> set (dec_digits n) \<Longrightarrow> d < 10"
proof (induction n rule: dec_digits.induct)
  case (1 n)
  show ?case
  proof (cases "n < 10")
    case True
    with "1.prems" show ?thesis by (subst (asm) dec_digits.simps) simp
  next
    case False
    with "1.prems" have "d \<in> set (dec_digits (n div 10)) \<or> d = n mod 10"
      by (subst (asm) dec_digits.simps) auto
    with False "1.IH" show ?thesis by auto
  qed
qed

lemma dec_digits_hd: "0 < n \<Longrightarrow> hd (dec_digits n) \<noteq> 0"
proof (induction n rule: dec_digits.induct)
  case (1 n)
  show ?case
  proof (cases "n < 10")
    case True
    with "1.prems" show ?thesis by (subst dec_digits.simps) simp
  next
    case False
    then have "0 < n div 10" by simp
    with False "1.IH" have "hd (dec_digits (n div 10)) \<noteq> 0" by simp
    with False show ?thesis
      by (subst dec_digits.simps) (simp add: dec_digits_nonempty)
  qed
qed

lemma strip_trailing_zeros_Cons:
  "a \<noteq> 0 \<Longrightarrow> strip_trailing_zeros (a # ds) = a # strip_trailing_zeros ds"
  by (simp add: strip_trailing_zeros_def dropWhile_append3)

lemma strip_trailing_zeros_subset: "set (strip_trailing_zeros ds) \<subseteq> set ds"
  using set_dropWhileD [of _ "\<lambda>d. d = 0" "rev ds"]
  by (auto simp: strip_trailing_zeros_def)

lemma float_digits_props:
  "float_digits m \<noteq> []" "\<forall>d\<in>set (float_digits m). d < 10"
  "m \<noteq> 0 \<Longrightarrow> hd (float_digits m) \<noteq> 0" "float_digits 0 = [0]"
proof -
  obtain a ds where ads: "dec_digits m = a # ds"
    using dec_digits_nonempty [of m] by (cases "dec_digits m") auto
  have a: "m \<noteq> 0 \<Longrightarrow> a \<noteq> 0"
    using dec_digits_hd [of m] ads by simp
  then have s: "m \<noteq> 0 \<Longrightarrow> float_digits m = a # strip_trailing_zeros ds"
    by (simp add: float_digits_def ads strip_trailing_zeros_Cons)
  show "float_digits m \<noteq> []"
    using s by (cases "m = 0") (simp_all add: float_digits_def)
  show "m \<noteq> 0 \<Longrightarrow> hd (float_digits m) \<noteq> 0"
    using s a by simp
  show "float_digits 0 = [0]" by (simp add: float_digits_def)
  have "d < 10" if "d \<in> set (float_digits m)" for d
  proof (cases "m = 0")
    case True
    with that show ?thesis by (simp add: float_digits_def)
  next
    case False
    with that have "d \<in> set (dec_digits m)"
      using strip_trailing_zeros_subset [of "dec_digits m"] by (auto simp: float_digits_def)
    then show ?thesis by (rule dec_digits_lt10)
  qed
  then show "\<forall>d\<in>set (float_digits m). d < 10" by blast
qed

lemma lt10_cases:
  "(d::nat) < 10 \<Longrightarrow> d = 0 \<or> d = 1 \<or> d = 2 \<or> d = 3 \<or> d = 4 \<or> d = 5 \<or> d = 6 \<or> d = 7 \<or> d = 8 \<or> d = 9"
  by arith

lemma is_digit_digit_char: "d < 10 \<Longrightarrow> is_digit (digit_char d)"
  by (auto dest!: lt10_cases simp: is_digit_def digit_char_def)

lemma digit_char_nonzero: "d < 10 \<Longrightarrow> d \<noteq> 0 \<Longrightarrow> digit_char d \<noteq> CHR ''0''"
  by (auto dest!: lt10_cases simp: digit_char_def)

lemma is_digit_not_special:
  assumes "is_digit c"
  shows "c \<notin> set ''eE''" "c \<noteq> CHR ''.''" "c \<noteq> CHR ''-''" "c \<noteq> CHR '',''" "\<not> is_ws c"
  using assms by (auto simp: is_digit_def is_ws_def)

lemma digits_str_all_digits: "\<forall>d\<in>set ds. d < 10 \<Longrightarrow> list_all is_digit (digits_str ds)"
  by (simp add: digits_str_def list_all_iff is_digit_digit_char)

lemma zeros_all_digits: "list_all is_digit (replicate n (CHR ''0''))"
  by (simp add: list_all_iff is_digit_def)

lemma json_digits_digits_str:
  "ds \<noteq> [] \<Longrightarrow> \<forall>d\<in>set ds. d < 10 \<Longrightarrow> json_digits (digits_str ds)"
  using digits_str_all_digits [of ds] by (simp add: json_digits_def digits_str_def)

section \<open>What \<^verbatim>\<open>float.__repr__\<close> prints is a JSON number\<close>

text \<open>
  A string made of an integer part, an optional fraction and an optional exponent is
  accepted by \<open>json_number\<close>, with or without a leading minus sign.
\<close>

lemma json_int_digits: "json_int i \<Longrightarrow> i \<noteq> [] \<and> list_all is_digit i"
  by (auto simp: json_int_def json_digits_def is_digit_def)

lemma json_numberI:
  assumes i: "json_int i"
    and fr: "fr = [] \<or> (\<exists>f. fr = CHR ''.'' # f \<and> json_digits f)"
    and ex: "ex = [] \<or> (\<exists>sg x. ex = CHR ''e'' # sg # x \<and> sg \<in> set ''+-'' \<and> json_digits x)"
  shows "json_number ((if neg then ''-'' else []) @ i @ fr @ ex)"
proof -
  let ?E = "\<lambda>c. c \<notin> set ''eE''"
  let ?D = "\<lambda>c. c \<noteq> CHR ''.''"
  let ?s = "(if neg then ''-'' else []) @ i @ fr @ ex"
  from json_int_digits [OF i] have ine: "i \<noteq> []" and idig: "list_all is_digit i" by simp_all
  have dig: "is_digit c" if "c \<in> set i" for c
    using idig that by (simp add: list_all_iff)
  have hd_i: "hd i \<noteq> CHR ''-''"
    using ine dig [of "hd i"] is_digit_not_special(3) [of "hd i"] by auto
  have u: "(if ?s \<noteq> [] \<and> hd ?s = CHR ''-'' then tl ?s else ?s) = i @ fr @ ex"
    using ine hd_i by (cases neg) simp_all
  have iE: "?E c" if "c \<in> set i" for c
    using is_digit_not_special(1) [OF dig [OF that]] .
  have iD: "?D c" if "c \<in> set i" for c
    using is_digit_not_special(2) [OF dig [OF that]] .
  have frE: "?E c" if "c \<in> set fr" for c
  proof -
    from fr that obtain f where f: "fr = CHR ''.'' # f" "json_digits f" by auto
    with that have "c = CHR ''.'' \<or> c \<in> set f" by simp
    then show ?thesis
    proof
      assume "c = CHR ''.''" then show ?thesis by simp
    next
      assume "c \<in> set f"
      with f(2) have "is_digit c" by (simp add: json_digits_def list_all_iff)
      then show ?thesis by (rule is_digit_not_special(1))
    qed
  qed
  have ifrE: "?E c" if "c \<in> set (i @ fr)" for c
    using that iE frE by auto
  have exT: "takeWhile ?E ex = []" and exD: "dropWhile ?E ex = ex"
    using ex by auto
  have mant: "takeWhile ?E (i @ fr @ ex) = i @ fr"
    using takeWhile_append2 [of "i @ fr" ?E ex] ifrE exT by simp
  have expo: "dropWhile ?E (i @ fr @ ex) = ex"
    using dropWhile_append2 [of "i @ fr" ?E ex] ifrE exD by simp
  have frT: "takeWhile ?D fr = []" and frD: "dropWhile ?D fr = fr"
    using fr by auto
  have ip: "takeWhile ?D (i @ fr) = i"
    using takeWhile_append2 [of i ?D fr] iD frT by simp
  have fp: "dropWhile ?D (i @ fr) = fr"
    using dropWhile_append2 [of i ?D fr] iD frD by simp
  have jf: "json_frac fr"
    using fr by (auto simp: json_frac_def)
  have je: "json_exp ex"
    using ex by (auto simp: json_exp_def)
  show ?thesis
    unfolding json_number_def u Let_def mant expo ip fp
    using i jf je by simp
qed

lemma json_int_digits_str:
  assumes "ds \<noteq> []" and "\<forall>d\<in>set ds. d < 10" and "hd ds \<noteq> 0" and "list_all is_digit z"
  shows "json_int (digits_str ds @ z)"
proof -
  obtain a as where ds: "ds = a # as" using assms(1) by (cases ds) auto
  with assms have "a < 10" "a \<noteq> 0" by simp_all
  then have "digit_char a \<noteq> CHR ''0''" by (rule digit_char_nonzero)
  moreover have "list_all is_digit (digits_str ds @ z)"
    using digits_str_all_digits [OF assms(2)] assms(4) by simp
  ultimately show ?thesis
    by (simp add: json_int_def json_digits_def ds digits_str_def)
qed

lemma fixed_form_json:
  assumes ne: "ds \<noteq> []" and lt: "\<forall>d\<in>set ds. d < 10"
    and z: "hd ds \<noteq> 0 \<or> (ds = [0] \<and> decpt = 1)"
  shows "json_number ((if neg then ''-'' else []) @ fixed_form ds decpt)"
proof -
  consider (small) "decpt \<le> 0" | (mid) "0 < decpt" "nat decpt < length ds"
    | (large) "0 < decpt" "\<not> nat decpt < length ds" by linarith
  then show ?thesis
  proof cases
    case small
    have "json_digits (replicate (nat (- decpt)) (CHR ''0'') @ digits_str ds)"
      using json_digits_digits_str [OF ne lt] zeros_all_digits [of "nat (- decpt)"]
      by (simp add: json_digits_def)
    then have "json_number ((if neg then ''-'' else []) @ ''0'' @
        (CHR ''.'' # replicate (nat (- decpt)) (CHR ''0'') @ digits_str ds) @ [])"
      by (intro json_numberI) (simp_all add: json_int_def)
    with small show ?thesis by (simp add: fixed_form_def)
  next
    case mid
    let ?k = "nat decpt"
    from mid have k: "0 < ?k" "?k < length ds" by simp_all
    from k z have hd0: "hd ds \<noteq> 0" by auto
    have tne: "take ?k ds \<noteq> []" using k ne by simp
    have tlt: "\<forall>d\<in>set (take ?k ds). d < 10" using lt by (auto dest: in_set_takeD)
    have thd: "hd (take ?k ds) \<noteq> 0" using hd0 k by (simp add: hd_take)
    have i: "json_int (digits_str (take ?k ds))"
      using json_int_digits_str [OF tne tlt thd, of "[]"] by simp
    have "json_digits (digits_str (drop ?k ds))"
      using k lt by (intro json_digits_digits_str) (auto dest: in_set_dropD)
    then have "json_number ((if neg then ''-'' else []) @ digits_str (take ?k ds) @
        (CHR ''.'' # digits_str (drop ?k ds)) @ [])"
      using i by (intro json_numberI) simp_all
    with mid show ?thesis by (simp add: fixed_form_def)
  next
    case large
    let ?z = "replicate (nat decpt - length ds) (CHR ''0'')"
    have i: "json_int (digits_str ds @ ?z)"
    proof (cases "hd ds \<noteq> 0")
      case True
      then show ?thesis using json_int_digits_str [OF ne lt _ zeros_all_digits] by simp
    next
      case False
      with z have "ds = [0]" "decpt = 1" by simp_all
      then show ?thesis by (simp add: json_int_def digits_str_def digit_char_def)
    qed
    have "json_number ((if neg then ''-'' else []) @ (digits_str ds @ ?z) @ ''.0'' @ [])"
      using i by (intro json_numberI) (simp_all add: json_digits_def is_digit_def)
    with large show ?thesis by (simp add: fixed_form_def)
  qed
qed

lemma exp_str_shape:
  "\<exists>sg x. exp_str n = sg # x \<and> sg \<in> set ''+-'' \<and> json_digits x"
proof -
  let ?d = "digits_str (dec_digits (nat \<bar>n\<bar>))"
  have d: "json_digits ?d"
    using json_digits_digits_str [of "dec_digits (nat \<bar>n\<bar>)"]
    by (simp add: dec_digits_nonempty dec_digits_lt10)
  then have "json_digits ((if \<bar>n\<bar> < 10 then ''0'' else []) @ ?d)"
    by (simp add: json_digits_def is_digit_def)
  then show ?thesis
    by (cases "n < 0") (simp_all add: exp_str_def)
qed

lemma exp_form_json:
  assumes ne: "ds \<noteq> []" and lt: "\<forall>d\<in>set ds. d < 10" and hd0: "hd ds \<noteq> 0"
  shows "json_number ((if neg then ''-'' else []) @ exp_form ds decpt)"
proof -
  obtain a as where ds: "ds = a # as" using ne by (cases ds) auto
  with lt hd0 have a: "a < 10" "a \<noteq> 0" by simp_all
  have i: "json_int [digit_char a]"
    using is_digit_digit_char [OF a(1)] digit_char_nonzero [OF a]
    by (simp add: json_int_def json_digits_def)
  let ?fr = "if 1 < length ds then CHR ''.'' # digits_str (tl ds) else []"
  have fr: "?fr = [] \<or> (\<exists>f. ?fr = CHR ''.'' # f \<and> json_digits f)"
  proof (cases "1 < length ds")
    case True
    with ds lt have "json_digits (digits_str as)"
      by (intro json_digits_digits_str) auto
    with True ds show ?thesis by simp
  next
    case False
    then show ?thesis by simp
  qed
  obtain sg x where ex: "exp_str (decpt - 1) = sg # x" "sg \<in> set ''+-''" "json_digits x"
    using exp_str_shape [of "decpt - 1"] by blast
  have "json_number ((if neg then ''-'' else []) @ [digit_char a] @ ?fr @ (CHR ''e'' # sg # x))"
    using i fr ex(2,3) by (intro json_numberI) blast+
  then show ?thesis
    by (auto simp: exp_form_def ds ex(1) split: if_splits)
qed

lemma float_repr_json: "json_number (float_repr neg m e)"
proof (cases "float_decpt m e \<le> - 4 \<or> 16 < float_decpt m e")
  case True
  then have "m \<noteq> 0" by (auto simp: float_decpt_def split: if_splits)
  then show ?thesis
    using True exp_form_json [of "float_digits m" neg "float_decpt m e"]
      float_digits_props(1,2,3) [of m]
    by (simp add: float_repr_def Let_def)
next
  case False
  have "hd (float_digits m) \<noteq> 0 \<or> (float_digits m = [0] \<and> float_decpt m e = 1)"
    using float_digits_props(3) [of m] float_digits_props(4)
    by (cases "m = 0") (simp_all add: float_decpt_def)
  then show ?thesis
    using False fixed_form_json [of "float_digits m" "float_decpt m e" neg]
      float_digits_props(1,2) [of m]
    by (simp add: float_repr_def Let_def)
qed

text \<open>
  Conversely a JSON number holds only digits, signs, a point and an exponent mark, so
  it has no comma and no white space.
\<close>

lemma num_char_plain: "num_char c \<Longrightarrow> c \<noteq> CHR '','' \<and> \<not> is_ws c"
  by (auto simp: num_char_def is_digit_def is_ws_def)

lemma json_digits_num: "json_digits s \<Longrightarrow> c \<in> set s \<Longrightarrow> num_char c"
  by (simp add: json_digits_def list_all_iff num_char_def)

lemma json_frac_num:
  assumes "json_frac s" and "c \<in> set s"
  shows "num_char c"
proof -
  from assms(2) have ne: "s \<noteq> []" by auto
  then have "s = hd s # tl s" by simp
  moreover from assms(1) ne have "hd s = CHR ''.''" "json_digits (tl s)"
    by (simp_all add: json_frac_def)
  ultimately have "c = CHR ''.'' \<or> c \<in> set (tl s)"
    using assms(2) by (metis set_ConsD)
  then show ?thesis
    using json_digits_num [OF \<open>json_digits (tl s)\<close>] by (auto simp: num_char_def)
qed

lemma json_exp_num:
  assumes "json_exp s" and "c \<in> set s"
  shows "num_char c"
proof -
  let ?r = "if tl s \<noteq> [] \<and> hd (tl s) \<in> set ''+-'' then tl (tl s) else tl s"
  from assms(2) have ne: "s \<noteq> []" by auto
  then have s: "s = hd s # tl s" by simp
  from assms(1) ne have h: "hd s \<in> set ''eE''" and d: "json_digits ?r"
    by (simp_all add: json_exp_def)
  from s assms(2) have "c = hd s \<or> c \<in> set (tl s)" by (metis set_ConsD)
  then show ?thesis
  proof
    assume "c = hd s"
    with h show ?thesis by (auto simp: num_char_def)
  next
    assume c: "c \<in> set (tl s)"
    show ?thesis
    proof (cases "tl s \<noteq> [] \<and> hd (tl s) \<in> set ''+-''")
      case True
      then have "tl s = hd (tl s) # tl (tl s)" by simp
      with c have "c = hd (tl s) \<or> c \<in> set (tl (tl s))" by (metis set_ConsD)
      then show ?thesis
      proof
        assume "c = hd (tl s)"
        with True show ?thesis by (auto simp: num_char_def)
      next
        assume "c \<in> set (tl (tl s))"
        with d True show ?thesis by (auto intro: json_digits_num)
      qed
    next
      case False
      with d c show ?thesis by (auto intro: json_digits_num)
    qed
  qed
qed

lemma json_number_num:
  assumes "json_number s"
  shows "s \<noteq> []" and "list_all num_char s"
proof -
  let ?E = "\<lambda>c. c \<notin> set ''eE''"
  let ?D = "\<lambda>c. c \<noteq> CHR ''.''"
  let ?u = "if s \<noteq> [] \<and> hd s = CHR ''-'' then tl s else s"
  let ?m = "takeWhile ?E ?u"
  from assms have i: "json_int (takeWhile ?D ?m)" and f: "json_frac (dropWhile ?D ?m)"
    and x: "json_exp (dropWhile ?E ?u)"
    by (simp_all add: json_number_def Let_def)
  from i have ine: "takeWhile ?D ?m \<noteq> []" and idig: "list_all is_digit (takeWhile ?D ?m)"
    using json_int_digits by blast+
  from ine have "?u \<noteq> []" by auto
  then show "s \<noteq> []" by auto
  have m: "num_char c" if "c \<in> set ?m" for c
  proof -
    from that have "c \<in> set (takeWhile ?D ?m @ dropWhile ?D ?m)" by simp
    then have "c \<in> set (takeWhile ?D ?m) \<or> c \<in> set (dropWhile ?D ?m)"
      unfolding set_append by blast
    then show ?thesis
      using idig json_frac_num [OF f] by (auto simp: list_all_iff num_char_def)
  qed
  have u: "num_char c" if "c \<in> set ?u" for c
  proof -
    from that have "c \<in> set (?m @ dropWhile ?E ?u)" by simp
    then have "c \<in> set ?m \<or> c \<in> set (dropWhile ?E ?u)"
      unfolding set_append by blast
    then show ?thesis
      using m json_exp_num [OF x] by blast
  qed
  have "num_char c" if "c \<in> set s" for c
  proof (cases "s \<noteq> [] \<and> hd s = CHR ''-''")
    case True
    then have "s = CHR ''-'' # tl s" by (cases s) auto
    with that have "c = CHR ''-'' \<or> c \<in> set (tl s)" by (metis set_ConsD)
    with True u [of c] show ?thesis by (auto simp: num_char_def)
  next
    case False
    with that u [of c] show ?thesis by auto
  qed
  then show "list_all num_char s" by (simp add: list_all_iff)
qed

lemma json_number_plain: "json_number s \<Longrightarrow> plain_token s"
  using json_number_num [of s] num_char_plain
  by (auto simp: plain_token_def list_all_iff)

section \<open>The text of \<^verbatim>\<open>json.dumps\<close> and its reading as an array\<close>

lemma floatstr_default: "floatstr True x = Inr (float_text x)"
  by (cases x) (simp_all add: float_text_def)

lemma encode_floats_default: "encode_floats True xs = Inr (map float_text xs)"
  by (induction xs) (simp_all add: floatstr_default)

lemma json_dumps_text: "json_dumps xs = Inr (''['' @ join '', '' (map float_text xs) @ '']'')"
  by (simp add: json_dumps_def json_dumps_with_def encode_floats_default)

lemma float_text_finite: "is_finite x \<Longrightarrow> json_number (float_text x)"
  by (cases x) (simp_all add: float_text_def is_finite_def float_repr_json)

lemma float_text_non_finite:
  assumes "\<not> is_finite x"
  shows "\<not> json_number (float_text x)" and "floatstr False x = Inl ''ValueError''"
  using assms
  by (cases x; simp add: float_text_def is_finite_def json_number_def json_int_def
      json_digits_def is_digit_def)+

lemma float_text_plain: "plain_token (float_text x)"
proof (cases "is_finite x")
  case True
  then show ?thesis by (intro json_number_plain float_text_finite)
next
  case False
  then show ?thesis
    by (cases x) (simp_all add: float_text_def is_finite_def plain_token_def is_ws_def)
qed

lemma encode_floats_strict:
  "\<not> list_all is_finite xs \<Longrightarrow> encode_floats False xs = Inl ''ValueError''"
proof (induction xs)
  case Nil
  then show ?case by simp
next
  case (Cons x xs)
  show ?case
  proof (cases "is_finite x")
    case True
    with Cons have "encode_floats False xs = Inl ''ValueError''" by simp
    moreover from True obtain t where "floatstr False x = Inr t"
      by (cases x) (simp_all add: is_finite_def)
    ultimately show ?thesis by simp
  next
    case False
    then show ?thesis by (simp add: float_text_non_finite(2))
  qed
qed

text \<open>
  Splitting the joined tokens at the commas and trimming gives the tokens back.
\<close>

lemma split_on_no_sep: "c \<notin> set a \<Longrightarrow> split_on c acc a = [rev acc @ a]"
  by (induction a arbitrary: acc) auto

lemma split_on_sep:
  "c \<notin> set a \<Longrightarrow> split_on c acc (a @ c # b) = (rev acc @ a) # split_on c [] b"
  by (induction a arbitrary: acc) auto

lemma plain_token_no_comma: "plain_token t \<Longrightarrow> CHR '','' \<notin> set t"
  by (auto simp: plain_token_def list_all_iff)

lemma split_on_join:
  assumes "CHR '','' \<notin> set p" and "plain_token t" and "\<forall>u\<in>set ts. plain_token u"
  shows "split_on (CHR '','') [] (p @ join '', '' (t # ts)) = (p @ t) # map ((#) (CHR '' '')) ts"
  using assms
proof (induction ts arbitrary: p t)
  case Nil
  then show ?case
    using split_on_no_sep [of "CHR '',''" "p @ t" "[]"] by (simp add: plain_token_no_comma)
next
  case (Cons u us)
  have "split_on (CHR '','') [] ((p @ t) @ CHR '','' # ('' '' @ join '', '' (u # us))) =
          (p @ t) # split_on (CHR '','') [] ('' '' @ join '', '' (u # us))"
    using split_on_sep [of "CHR '',''" "p @ t" "[]"] Cons.prems
    by (simp add: plain_token_no_comma)
  moreover have "split_on (CHR '','') [] ('' '' @ join '', '' (u # us)) =
          ('' '' @ u) # map ((#) (CHR '' '')) us"
    using Cons.prems by (intro Cons.IH) simp_all
  ultimately show ?case by simp
qed

lemma trim_plain:
  assumes "plain_token t"
  shows "trim t = t" and "trim (CHR '' '' # t) = t"
proof -
  from assms have ne: "t \<noteq> []" and nws: "\<And>c. c \<in> set t \<Longrightarrow> \<not> is_ws c"
    by (auto simp: plain_token_def list_all_iff)
  have h: "\<not> is_ws (hd t)" using ne nws by simp
  have l: "\<not> is_ws (hd (rev t))" using ne nws by (simp add: hd_rev)
  have d1: "dropWhile is_ws t = t" using h ne by (simp add: dropWhile_eq_self_iff)
  have d2: "dropWhile is_ws (rev t) = rev t" using l ne by (simp add: dropWhile_eq_self_iff)
  show "trim t = t" by (simp add: trim_def d1 d2)
  have "is_ws (CHR '' '')" by (simp add: is_ws_def)
  then show "trim (CHR '' '' # t) = t" by (simp add: trim_def d1 d2)
qed

lemma trim_line:
  assumes "\<not> is_ws a" and "\<not> is_ws b"
  shows "trim (a # xs @ [b, CHR 0x0A]) = a # xs @ [b]"
  using assms by (simp add: trim_def is_ws_def)

lemma join_plain_hd:
  assumes "plain_token t"
  shows "join sep (t # ts) \<noteq> []" and "hd (join sep (t # ts)) = hd t"
  using assms by (cases ts; simp add: plain_token_def)+

lemma trim_join_nonempty:
  assumes "plain_token t"
  shows "trim (join sep (t # ts)) \<noteq> []"
proof -
  let ?J = "join sep (t # ts)"
  from assms have "\<not> is_ws (hd t)" by (cases t) (simp_all add: plain_token_def)
  with join_plain_hd [OF assms, of sep ts] have d: "dropWhile is_ws ?J = ?J"
    by (simp add: dropWhile_eq_self_iff)
  have "\<exists>c\<in>set (rev ?J). \<not> is_ws c"
    using join_plain_hd [OF assms, of sep ts] \<open>\<not> is_ws (hd t)\<close>
    by (metis hd_in_set set_rev)
  then have "dropWhile is_ws (rev ?J) \<noteq> []"
    by (simp add: dropWhile_eq_Nil_conv)
  then show ?thesis by (simp add: trim_def d)
qed

lemma json_array_of_line:
  assumes "ts \<noteq> []" and "\<forall>t\<in>set ts. plain_token t"
  shows "json_array_of item (''['' @ join '', '' ts @ '']'' @ [CHR 0x0A]) =
           (if list_all item ts then Some ts else None)"
proof -
  obtain t us where ts: "ts = t # us" using assms(1) by (cases ts) auto
  with assms(2) have pt: "plain_token t" and pus: "\<forall>u\<in>set us. plain_token u" by simp_all
  let ?J = "join '', '' (t # us)"
  have tr: "trim (''['' @ ?J @ '']'' @ [CHR 0x0A]) = CHR ''['' # ?J @ '']''"
    using trim_line [of "CHR ''[''" "CHR '']''" ?J] by (simp add: is_ws_def)
  have sp: "split_on (CHR '','') [] ?J = t # map ((#) (CHR '' '')) us"
    using split_on_join [of "[]" t us] pt pus by simp
  have "map trim (map ((#) (CHR '' '')) us) = us"
    using pus by (induction us) (simp_all add: trim_plain(2))
  then have toks: "map trim (split_on (CHR '','') [] ?J) = t # us"
    using sp trim_plain(1) [OF pt] by simp
  show ?thesis
    unfolding json_array_of_def tr ts Let_def
    using trim_join_nonempty [OF pt, of "'', ''" us] toks
    by simp
qed

lemma join_no_newline:
  "\<forall>t\<in>set ts. plain_token t \<Longrightarrow> CHR 0x0A \<notin> set (join '', '' ts)"
proof (induction "'', ''" ts rule: join.induct)
  case 1
  then show ?case by simp
next
  case (2 t)
  then show ?case by (auto simp: plain_token_def list_all_iff is_ws_def)
next
  case (3 t u ts)
  then show ?case by (auto simp: plain_token_def list_all_iff is_ws_def)
qed

lemma single_line_array:
  "\<forall>t\<in>set ts. plain_token t \<Longrightarrow> single_line (''['' @ join '', '' ts @ '']'' @ [CHR 0x0A])"
  using join_no_newline [of ts]
  by (simp add: single_line_def butlast_append)

text \<open>The run with Python's serializer, once the load and the encoding have succeeded.\<close>

lemma run_json:
  assumes "1 < length argv"
    and "SentenceTransformer L ''all-MiniLM-L6-v2'' w = (Inr m, w1)"
    and "encode L m [argv ! 1] w1 = (Inr (v # rest), w2)"
    and "dumps L = json_dumps"
  shows "result_of L argv w = Inr ()"
    and "stdout_of L argv w = ''['' @ join '', '' (map float_text (tolist v)) @ '']'' @ [CHR 0x0A]"
  using run_ok [of L w m w1 argv v rest w2 "''['' @ join '', '' (map float_text v) @ '']''"] assms
  by (simp_all add: result_of_def stdout_of_def MODEL_NAME_def tolist_def json_dumps_text)

section \<open>The printed line\<close>

text \<open>
  C1, as the specification states it, fails: the script calls \<^verbatim>\<open>json.dumps\<close>
  with its default settings, which write a non-finite float as a bare constant. When
  the encoding succeeds with a row of 384 floats that are all NaN, the run succeeds and
  the printed text is not a JSON array of numbers.
\<close>

theorem C1_counterexample:
  "length (replicate 384 NaN) = 384 \<and>
   result_of (stub_lib (replicate 384 NaN)) [''generate_embedding.py'', ''hello''] () = Inr () \<and>
   json_number_array
     (stdout_of (stub_lib (replicate 384 NaN)) [''generate_embedding.py'', ''hello''] ()) = None"
proof -
  let ?L = "stub_lib (replicate 384 NaN) :: (unit, string) lib"
  let ?argv = "[''generate_embedding.py'', ''hello'']"
  have r: "result_of ?L ?argv () = Inr ()"
    and s: "stdout_of ?L ?argv () =
            ''['' @ join '', '' (map float_text (tolist (replicate 384 NaN))) @ '']'' @ [CHR 0x0A]"
    using run_json [of ?argv ?L "()" "''all-MiniLM-L6-v2''" "()" "replicate 384 NaN" "[]" "()"]
    by (simp_all add: stub_lib_simps)
  have "\<not> list_all json_number (map float_text (tolist (replicate 384 NaN)))"
    using float_text_non_finite(1) [of NaN]
    by (simp add: tolist_def list_all_iff is_finite_def)
  then have "json_number_array (stdout_of ?L ?argv ()) = None"
    unfolding s json_number_array_def
    using json_array_of_line [of "map float_text (tolist (replicate 384 NaN))" json_number]
    by (simp add: tolist_def float_text_plain)
  with r show ?thesis by simp
qed

text \<open>
  C1, amended: for every input string given as the first positional argument, when the
  model loads, the encoding succeeds and its first row has 384 components, all of them
  finite, and the serializer is \<^verbatim>\<open>json.dumps\<close>, standard output is a single
  line of valid JSON that parses to an array of exactly 384 numbers, the texts of the
  components in order.
\<close>

theorem C1_output_is_json_array_of_384_numbers:
  assumes "1 < length argv"
    and "SentenceTransformer L ''all-MiniLM-L6-v2'' w = (Inr m, w1)"
    and "encode L m [argv ! 1] w1 = (Inr (v # rest), w2)"
    and "dumps L = json_dumps"
    and "length (tolist v) = 384"
    and "list_all is_finite (tolist v)"
  shows "single_line (stdout_of L argv w) \<and>
         json_number_array (stdout_of L argv w) = Some (map float_text (tolist v)) \<and>
         length (map float_text (tolist v)) = 384"
proof -
  let ?ts = "map float_text (tolist v)"
  have s: "stdout_of L argv w = ''['' @ join '', '' ?ts @ '']'' @ [CHR 0x0A]"
    using run_json(2) [OF assms(1-4)] .
  have ne: "?ts \<noteq> []" using assms(5) by auto
  have pl: "\<forall>t\<in>set ?ts. plain_token t" by (simp add: float_text_plain)
  have nums: "list_all json_number ?ts"
    using assms(6) by (simp add: list_all_iff float_text_finite)
  have "json_number_array (stdout_of L argv w) = Some ?ts"
    unfolding s json_number_array_def
    using json_array_of_line [OF ne pl, of json_number] nums by simp
  moreover have "single_line (stdout_of L argv w)"
    unfolding s using pl by (rule single_line_array)
  ultimately show ?thesis using assms(5) by simp
qed

text \<open>
A row of 384 times the float 0.5.
\<close>

theorem C1_witness:
  "json_number_array
     (stdout_of (stub_lib (replicate 384 (Finite False 5 (- 1))))
        [''generate_embedding.py'', ''hello world''] ()) =
     Some (replicate 384 ''0.5'')"
proof -
  have "float_text (Finite False 5 (- 1)) = ''0.5''"
    by (simp add: float_text_def float_repr_def float_digits_def float_decpt_def
        fixed_form_def digits_str_def digit_char_def strip_trailing_zeros_def dec_digits.simps)
  then show ?thesis
    using C1_output_is_json_array_of_384_numbers
      [of "[''generate_embedding.py'', ''hello world'']"
          "stub_lib (replicate 384 (Finite False 5 (- 1)))" "()" "''all-MiniLM-L6-v2''" "()"
          "replicate 384 (Finite False 5 (- 1))" "[]" "()"]
    by (simp add: stub_lib_simps tolist_def list_all_iff is_finite_def)
qed

text \<open>
  C2: when an argument is supplied, the model named \<^verbatim>\<open>all-MiniLM-L6-v2\<close> loads,
  encoding the one-element list holding the argument returns rows, and the first row
  serializes to \<open>js\<close>, standard output is exactly \<open>js\<close> followed by a newline.
\<close>

theorem C2_stdout_is_serialized_first_vector:
  assumes "1 < length argv"
    and "SentenceTransformer L ''all-MiniLM-L6-v2'' w = (Inr m, w1)"
    and "encode L m [argv ! 1] w1 = (Inr (v # rest), w2)"
    and "dumps L (tolist v) = Inr js"
  shows "stdout_of L argv w = js @ [CHR 0x0A] \<and> result_of L argv w = Inr ()"
  using run_ok [of L w m w1 argv v rest w2 js] assms
  by (simp add: stdout_of_def result_of_def MODEL_NAME_def tolist_def)

theorem C2_witness:
  "stdout_of (stub_lib [Finite False 15 (- 1), Finite True 25 (- 2)])
      [''generate_embedding.py'', ''hello world''] () = ''[1.5, -0.25]'' @ [CHR 0x0A]"
  using C2_stdout_is_serialized_first_vector
    [of "[''generate_embedding.py'', ''hello world'']"
        "stub_lib [Finite False 15 (- 1), Finite True 25 (- 2)]" "()"
        "''all-MiniLM-L6-v2''" "()" "[Finite False 15 (- 1), Finite True 25 (- 2)]" "[]" "()"
        "''[1.5, -0.25]''"]
  by (simp add: stub_lib_simps tolist_def json_dumps_def json_dumps_with_def float_repr_def
      float_digits_def float_decpt_def fixed_form_def digits_str_def digit_char_def
      strip_trailing_zeros_def dec_digits.simps)

section \<open>The order of the steps\<close>

text \<open>
  C3, as the specification states it, fails: the first statement of the script loads
  the model and the second reads the argument. On a run that succeeds the trace starts
  with the load, so the load does happen before the argument has been read.
\<close>

theorem C3_counterexample:
  "trace_of (stub_lib [NaN]) [''generate_embedding.py'', ''hello''] () =
     [ModelLoad ''all-MiniLM-L6-v2'', ArgRead, Inference [''hello''], Serialize, Write] \<and>
   \<not> never_before (ModelLoad ''all-MiniLM-L6-v2'') ArgRead
        (trace_of (stub_lib [NaN]) [''generate_embedding.py'', ''hello''] ())"
  using run_ok [of "stub_lib [NaN]" "()" "''all-MiniLM-L6-v2''" "()"
      "[''generate_embedding.py'', ''hello'']" "[NaN]" "[]" "()" "''[NaN]''"]
  by (simp add: trace_of_def never_before_def stub_lib_simps MODEL_NAME_def json_dumps_def
      json_dumps_with_def)

text \<open>
  C3, amended: in every execution the steps occur in the order model load, argument
  read, inference, serialization, write, and the run stops at the first step that
  raises. The trace is fixed by the step that raises, together with the error the run
  ends with: only the load when the load raises; the load and the argument read when the
  argument is missing; these and the inference when the encoding raises or returns no
  row; these and the serialization when the serializer raises; all five steps when
  nothing raises. So the trace is a non-empty prefix of the five steps, the argument is
  never read before the load, and a run that succeeds performs all five.
\<close>

theorem C3_model_load_is_first:
  "(result_of L argv w, trace_of L argv w) =
     (case fst (SentenceTransformer L ''all-MiniLM-L6-v2'' w) of
        Inl n \<Rightarrow> (Inl (Raised n), [ModelLoad ''all-MiniLM-L6-v2''])
      | Inr m \<Rightarrow>
          (case getitem argv 1 of
             Inl e \<Rightarrow> (Inl e, [ModelLoad ''all-MiniLM-L6-v2'', ArgRead])
           | Inr t \<Rightarrow>
               (case fst (encode L m [t] (snd (SentenceTransformer L ''all-MiniLM-L6-v2'' w))) of
                  Inl n \<Rightarrow>
                    (Inl (Raised n), [ModelLoad ''all-MiniLM-L6-v2'', ArgRead, Inference [t]])
                | Inr rows \<Rightarrow>
                    (case getitem rows 0 of
                       Inl e \<Rightarrow>
                         (Inl e, [ModelLoad ''all-MiniLM-L6-v2'', ArgRead, Inference [t]])
                     | Inr v \<Rightarrow>
                         (case dumps L (tolist v) of
                            Inl n \<Rightarrow>
                              (Inl (Raised n),
                               [ModelLoad ''all-MiniLM-L6-v2'', ArgRead, Inference [t],
                                Serialize])
                          | Inr js \<Rightarrow>
                              (Inr (),
                               [ModelLoad ''all-MiniLM-L6-v2'', ArgRead, Inference [t],
                                Serialize, Write])))))) \<and>
   (\<exists>k\<ge>1. trace_of L argv w =
       take k (ModelLoad ''all-MiniLM-L6-v2'' # ArgRead #
               (case getitem argv 1 of
                  Inl e \<Rightarrow> []
                | Inr t \<Rightarrow> [Inference [t], Serialize, Write]))) \<and>
   never_before ArgRead (ModelLoad ''all-MiniLM-L6-v2'') (trace_of L argv w) \<and>
   (result_of L argv w = Inr () \<longrightarrow>
      trace_of L argv w =
        [ModelLoad ''all-MiniLM-L6-v2'', ArgRead, Inference [argv ! 1], Serialize, Write])"
proof -
  have steps: "(result_of L argv w, trace_of L argv w) =
     (case fst (SentenceTransformer L ''all-MiniLM-L6-v2'' w) of
        Inl n \<Rightarrow> (Inl (Raised n), [ModelLoad ''all-MiniLM-L6-v2''])
      | Inr m \<Rightarrow>
          (case getitem argv 1 of
             Inl e \<Rightarrow> (Inl e, [ModelLoad ''all-MiniLM-L6-v2'', ArgRead])
           | Inr t \<Rightarrow>
               (case fst (encode L m [t] (snd (SentenceTransformer L ''all-MiniLM-L6-v2'' w))) of
                  Inl n \<Rightarrow>
                    (Inl (Raised n), [ModelLoad ''all-MiniLM-L6-v2'', ArgRead, Inference [t]])
                | Inr rows \<Rightarrow>
                    (case getitem rows 0 of
                       Inl e \<Rightarrow>
                         (Inl e, [ModelLoad ''all-MiniLM-L6-v2'', ArgRead, Inference [t]])
                     | Inr v \<Rightarrow>
                         (case dumps L (tolist v) of
                            Inl n \<Rightarrow>
                              (Inl (Raised n),
                               [ModelLoad ''all-MiniLM-L6-v2'', ArgRead, Inference [t],
                                Serialize])
                          | Inr js \<Rightarrow>
                              (Inr (),
                               [ModelLoad ''all-MiniLM-L6-v2'', ArgRead, Inference [t],
                                Serialize, Write]))))))"
    by (simp add: result_of_def trace_of_def generate_embedding_def and_then_def load_model_def
        lib_call_def log_event_def read_arg_def run_encode_def first_row_def serialize_def
        print_def MODEL_NAME_def split: prod.splits sum.splits)
  have order: "(\<exists>k\<ge>1. trace_of L argv w =
       take k (ModelLoad ''all-MiniLM-L6-v2'' # ArgRead #
               (case getitem argv 1 of
                  Inl e \<Rightarrow> []
                | Inr t \<Rightarrow> [Inference [t], Serialize, Write]))) \<and>
   never_before ArgRead (ModelLoad ''all-MiniLM-L6-v2'') (trace_of L argv w) \<and>
   (result_of L argv w = Inr () \<longrightarrow>
      trace_of L argv w =
        [ModelLoad ''all-MiniLM-L6-v2'', ArgRead, Inference [argv ! 1], Serialize, Write])"
  proof (cases rule: run_outcomes [where L = L and w = w and argv = argv])
    case (load_fail n w1)
    have "trace_of L argv w = [ModelLoad ''all-MiniLM-L6-v2'']"
      using run_load_fail [OF load_fail] by (simp add: trace_of_def MODEL_NAME_def)
    moreover have "result_of L argv w \<noteq> Inr ()"
      using run_load_fail [OF load_fail] by (simp add: result_of_def)
    ultimately show ?thesis
      by (auto simp: never_before_def intro: exI [of _ 1])
  next
    case (no_arg m w1)
    have "trace_of L argv w = [ModelLoad ''all-MiniLM-L6-v2'', ArgRead]"
      using run_no_arg [OF no_arg] by (simp add: trace_of_def MODEL_NAME_def)
    moreover have "result_of L argv w \<noteq> Inr ()"
      using run_no_arg [OF no_arg] by (simp add: result_of_def)
    ultimately show ?thesis
      by (auto simp: never_before_def intro: exI [of _ 2])
  next
    case (encode_fail m w1 n w2)
    have "trace_of L argv w = [ModelLoad ''all-MiniLM-L6-v2'', ArgRead, Inference [argv ! 1]]"
      using run_encode_fail [OF encode_fail] by (simp add: trace_of_def MODEL_NAME_def)
    moreover have "result_of L argv w \<noteq> Inr ()"
      using run_encode_fail [OF encode_fail] by (simp add: result_of_def)
    ultimately show ?thesis using encode_fail(2)
      by (auto simp: never_before_def getitem_def intro: exI [of _ 3])
  next
    case (no_row m w1 w2)
    have "trace_of L argv w = [ModelLoad ''all-MiniLM-L6-v2'', ArgRead, Inference [argv ! 1]]"
      using run_no_row [OF no_row] by (simp add: trace_of_def MODEL_NAME_def)
    moreover have "result_of L argv w \<noteq> Inr ()"
      using run_no_row [OF no_row] by (simp add: result_of_def)
    ultimately show ?thesis using no_row(2)
      by (auto simp: never_before_def getitem_def intro: exI [of _ 3])
  next
    case (dumps_fail m w1 v rest w2 n)
    have "trace_of L argv w =
            [ModelLoad ''all-MiniLM-L6-v2'', ArgRead, Inference [argv ! 1], Serialize]"
      using run_dumps_fail [OF dumps_fail] by (simp add: trace_of_def MODEL_NAME_def)
    moreover have "result_of L argv w \<noteq> Inr ()"
      using run_dumps_fail [OF dumps_fail] by (simp add: result_of_def)
    ultimately show ?thesis using dumps_fail(2)
      by (auto simp: never_before_def getitem_def intro: exI [of _ 4])
  next
    case (ok m w1 v rest w2 js)
    have "trace_of L argv w =
            [ModelLoad ''all-MiniLM-L6-v2'', ArgRead, Inference [argv ! 1], Serialize, Write]"
      using run_ok [OF ok] by (simp add: trace_of_def MODEL_NAME_def)
    then show ?thesis using ok(2)
      by (auto simp: never_before_def getitem_def intro: exI [of _ 5])
  qed
  from steps order show ?thesis by (rule conjI)
qed

text \<open>
  A successful run, with its five steps in that order, and a run whose load raises,
  which stops there: the argument is not read.
\<close>

theorem C3_witness:
  "(result_of (stub_lib [NaN]) [''generate_embedding.py'', ''hello''] () = Inr () \<and>
    trace_of (stub_lib [NaN]) [''generate_embedding.py'', ''hello''] () =
      [ModelLoad ''all-MiniLM-L6-v2'', ArgRead, Inference [''hello''], Serialize, Write]) \<and>
   (result_of offline_lib [''generate_embedding.py'', ''hello''] () = Inl (Raised ''OSError'') \<and>
    trace_of offline_lib [''generate_embedding.py'', ''hello''] () =
      [ModelLoad ''all-MiniLM-L6-v2''])"
proof -
  have r: "result_of (stub_lib [NaN]) [''generate_embedding.py'', ''hello''] () = Inr ()"
    using run_ok [of "stub_lib [NaN]" "()" "''all-MiniLM-L6-v2''" "()"
        "[''generate_embedding.py'', ''hello'']" "[NaN]" "[]" "()" "''[NaN]''"]
    by (simp add: result_of_def stub_lib_simps MODEL_NAME_def json_dumps_def
        json_dumps_with_def)
  have a: "trace_of (stub_lib [NaN]) [''generate_embedding.py'', ''hello''] () =
      [ModelLoad ''all-MiniLM-L6-v2'', ArgRead, Inference [''hello''], Serialize, Write]"
    using r C3_model_load_is_first
      [of "stub_lib [NaN]" "[''generate_embedding.py'', ''hello'']" "()"]
    by simp
  have b: "result_of offline_lib [''generate_embedding.py'', ''hello''] () =
             Inl (Raised ''OSError'') \<and>
           trace_of offline_lib [''generate_embedding.py'', ''hello''] () =
             [ModelLoad ''all-MiniLM-L6-v2'']"
    using C3_model_load_is_first
      [of offline_lib "[''generate_embedding.py'', ''hello'']" "()"]
    by (simp add: offline_lib_simps)
  from r a b show ?thesis by simp
qed

section \<open>A missing argument\<close>

text \<open>
  C4, as the specification states it, fails: with no argument and a model that cannot
  be loaded (no network, nothing cached), the uncaught error is the load's, not an
  index error, since the load comes first.
\<close>

theorem C4_counterexample:
  "result_of offline_lib [''generate_embedding.py''] () = Inl (Raised ''OSError'') \<and>
   result_of offline_lib [''generate_embedding.py''] () \<noteq> Inl IndexError"
  using run_load_fail [of offline_lib "()" "''OSError''" "()" "[''generate_embedding.py'']"]
  by (simp add: result_of_def offline_lib_simps)

text \<open>
  C4, amended: for every invocation with no positional argument the exit status is not
  zero and nothing is written to standard output; the uncaught error is the index error
  when the model load succeeds, and the load's own error when the load fails.
\<close>

theorem C4_missing_argument:
  assumes "length argv \<le> 1"
  shows "exit_status (result_of L argv w) \<noteq> 0 \<and>
         stdout_of L argv w = [] \<and>
         result_of L argv w =
           (case fst (SentenceTransformer L ''all-MiniLM-L6-v2'' w) of
              Inl n \<Rightarrow> Inl (Raised n)
            | Inr m \<Rightarrow> Inl IndexError)"
proof (cases "SentenceTransformer L MODEL_NAME w")
  case (Pair r w1)
  show ?thesis
  proof (cases r)
    case (Inl n)
    with Pair run_load_fail [of L w n w1 argv] show ?thesis
      by (simp add: result_of_def stdout_of_def exit_status_def MODEL_NAME_def)
  next
    case (Inr m)
    with Pair assms run_no_arg [of L w m w1 argv] show ?thesis
      by (simp add: result_of_def stdout_of_def exit_status_def MODEL_NAME_def)
  qed
qed

text \<open>Only the script's name on the command line, and a model that loads.\<close>

theorem C4_witness:
  "length [''generate_embedding.py''] \<le> 1 \<and>
   exit_status (result_of (stub_lib [NaN]) [''generate_embedding.py''] ()) \<noteq> 0 \<and>
   stdout_of (stub_lib [NaN]) [''generate_embedding.py''] () = [] \<and>
   result_of (stub_lib [NaN]) [''generate_embedding.py''] () = Inl IndexError"
  using C4_missing_argument [of "[''generate_embedding.py'']" "stub_lib [NaN]" "()"]
  by (auto simp: stub_lib_simps)

section \<open>Failures of the library calls\<close>

text \<open>
  C5: when the model load raises, or the encoding raises, or the serializer raises, the
  run ends with that very exception uncaught, the exit status is not zero and standard
  output is empty. In every run, output is all or nothing: standard output is empty
  unless the run succeeded, and the exit status is zero or nothing was printed.
\<close>

theorem C5_failure_propagates:
  "((SentenceTransformer L ''all-MiniLM-L6-v2'' w = (Inl n, w1) \<or>
     (\<exists>m. SentenceTransformer L ''all-MiniLM-L6-v2'' w = (Inr m, w1) \<and> 1 < length argv \<and>
        (encode L m [argv ! 1] w1 = (Inl n, w2) \<or>
         (\<exists>v rest. encode L m [argv ! 1] w1 = (Inr (v # rest), w2) \<and>
            dumps L (tolist v) = Inl n)))) \<longrightarrow>
    result_of L argv w = Inl (Raised n) \<and>
    exit_status (result_of L argv w) \<noteq> 0 \<and>
    stdout_of L argv w = []) \<and>
   (stdout_of L argv w = [] \<or> result_of L argv w = Inr ()) \<and>
   (exit_status (result_of L argv w) = 0 \<or> stdout_of L argv w = [])"
proof -
  have a: "result_of L argv w = Inl (Raised n) \<and> exit_status (result_of L argv w) \<noteq> 0 \<and>
           stdout_of L argv w = []"
    if "SentenceTransformer L MODEL_NAME w = (Inl n, w1)"
    using run_load_fail [OF that, of argv]
    by (simp add: result_of_def stdout_of_def exit_status_def)
  have b: "result_of L argv w = Inl (Raised n) \<and> exit_status (result_of L argv w) \<noteq> 0 \<and>
           stdout_of L argv w = []"
    if "SentenceTransformer L MODEL_NAME w = (Inr m, w1)" "1 < length argv"
       "encode L m [argv ! 1] w1 = (Inl n, w2)" for m
    using run_encode_fail [OF that]
    by (simp add: result_of_def stdout_of_def exit_status_def)
  have c: "result_of L argv w = Inl (Raised n) \<and> exit_status (result_of L argv w) \<noteq> 0 \<and>
           stdout_of L argv w = []"
    if "SentenceTransformer L MODEL_NAME w = (Inr m, w1)" "1 < length argv"
       "encode L m [argv ! 1] w1 = (Inr (v # rest), w2)" "dumps L v = Inl n" for m v rest
    using run_dumps_fail [OF that]
    by (simp add: result_of_def stdout_of_def exit_status_def)
  have d: "(stdout_of L argv w = [] \<or> result_of L argv w = Inr ()) \<and>
           (exit_status (result_of L argv w) = 0 \<or> stdout_of L argv w = [])"
  proof (cases rule: run_outcomes [where L = L and w = w and argv = argv])
    case (load_fail n w1)
    from run_load_fail [OF this] show ?thesis by (simp add: stdout_of_def)
  next
    case (no_arg m w1)
    from run_no_arg [OF this] show ?thesis by (simp add: stdout_of_def)
  next
    case (encode_fail m w1 n w2)
    from run_encode_fail [OF this] show ?thesis by (simp add: stdout_of_def)
  next
    case (no_row m w1 w2)
    from run_no_row [OF this] show ?thesis by (simp add: stdout_of_def)
  next
    case (dumps_fail m w1 v rest w2 n)
    from run_dumps_fail [OF this] show ?thesis by (simp add: stdout_of_def)
  next
    case (ok m w1 v rest w2 js)
    from run_ok [OF this] show ?thesis by (simp add: result_of_def exit_status_def)
  qed
  from a b c d show ?thesis
    unfolding MODEL_NAME_def tolist_def by blast
qed

text \<open>One failing run for each of the three library calls.\<close>

theorem C5_witness:
  "(result_of offline_lib [''generate_embedding.py'', ''hello''] () = Inl (Raised ''OSError'') \<and>
    stdout_of offline_lib [''generate_embedding.py'', ''hello''] () = []) \<and>
   (result_of oom_lib [''generate_embedding.py'', ''hello''] () = Inl (Raised ''RuntimeError'') \<and>
    stdout_of oom_lib [''generate_embedding.py'', ''hello''] () = []) \<and>
   (result_of (strict_lib [NaN]) [''generate_embedding.py'', ''hello''] () =
      Inl (Raised ''ValueError'') \<and>
    stdout_of (strict_lib [NaN]) [''generate_embedding.py'', ''hello''] () = [])"
  using
    C5_failure_propagates [of offline_lib "()" "''OSError''" "()"
      "[''generate_embedding.py'', ''hello'']" "()"]
    C5_failure_propagates [of oom_lib "()" "''RuntimeError''" "()"
      "[''generate_embedding.py'', ''hello'']" "()"]
    C5_failure_propagates [of "strict_lib [NaN]" "()" "''ValueError''" "()"
      "[''generate_embedding.py'', ''hello'']" "()"]
  by (simp add: offline_lib_simps oom_lib_simps strict_lib_simps tolist_def
      json_dumps_with_def)

text \<open>
  C6, as the specification states it, fails: a row holding NaN and the two infinities
  is serialized without any error, the line is printed and the exit status is 0.
\<close>

theorem C6_counterexample:
  "result_of (stub_lib [NaN, PosInf, NegInf]) [''generate_embedding.py'', ''hello''] () = Inr () \<and>
   exit_status
     (result_of (stub_lib [NaN, PosInf, NegInf]) [''generate_embedding.py'', ''hello''] ()) = 0 \<and>
   stdout_of (stub_lib [NaN, PosInf, NegInf]) [''generate_embedding.py'', ''hello''] () =
     ''[NaN, Infinity, -Infinity]'' @ [CHR 0x0A]"
  using run_json [of "[''generate_embedding.py'', ''hello'']" "stub_lib [NaN, PosInf, NegInf]" "()"
      "''all-MiniLM-L6-v2''" "()" "[NaN, PosInf, NegInf]" "[]" "()"]
  by (simp add: stub_lib_simps tolist_def float_text_def exit_status_def)

text \<open>
  C6, amended: if the row returned by the encoding holds a non-finite value, the
  serialization step does not fail. \<^verbatim>\<open>json.dumps\<close> with its default
  \<^verbatim>\<open>allow_nan=True\<close> writes NaN, Infinity and -Infinity for such values, the line
  is printed and the exit status is 0; the printed line is then not a JSON array of
  numbers. The serialization would raise \<^verbatim>\<open>ValueError\<close> only under
  \<^verbatim>\<open>allow_nan=False\<close>, which the script does not pass.
\<close>

theorem C6_non_finite_values_are_printed:
  assumes "1 < length argv"
    and "SentenceTransformer L ''all-MiniLM-L6-v2'' w = (Inr m, w1)"
    and "encode L m [argv ! 1] w1 = (Inr (v # rest), w2)"
    and "dumps L = json_dumps"
    and "\<not> list_all is_finite (tolist v)"
  shows "result_of L argv w = Inr () \<and>
         exit_status (result_of L argv w) = 0 \<and>
         stdout_of L argv w =
           ''['' @ join '', '' (map float_text (tolist v)) @ '']'' @ [CHR 0x0A] \<and>
         float_text NaN = ''NaN'' \<and> float_text PosInf = ''Infinity'' \<and>
         float_text NegInf = ''-Infinity'' \<and>
         json_number_array (stdout_of L argv w) = None \<and>
         json_dumps_with False (tolist v) = Inl ''ValueError''"
proof -
  let ?ts = "map float_text (tolist v)"
  have r: "result_of L argv w = Inr ()"
    and s: "stdout_of L argv w = ''['' @ join '', '' ?ts @ '']'' @ [CHR 0x0A]"
    using run_json [OF assms(1-4)] by simp_all
  from assms(5) obtain x where x: "x \<in> set (tolist v)" "\<not> is_finite x"
    by (auto simp: list_all_iff)
  then have ne: "?ts \<noteq> []" by auto
  have pl: "\<forall>t\<in>set ?ts. plain_token t" by (simp add: float_text_plain)
  have "\<not> list_all json_number ?ts"
    using x float_text_non_finite(1) [of x] by (auto simp: list_all_iff)
  then have a: "json_number_array (stdout_of L argv w) = None"
    unfolding s json_number_array_def
    using json_array_of_line [OF ne pl, of json_number] by simp
  have b: "json_dumps_with False (tolist v) = Inl ''ValueError''"
    using encode_floats_strict [OF assms(5)] by (simp add: json_dumps_with_def)
  from r s a b show ?thesis
    by (simp add: exit_status_def float_text_def)
qed

text \<open>
A row with one finite and one non-finite component.
\<close>

theorem C6_witness:
  "stdout_of (stub_lib [Finite False 5 (- 1), NaN]) [''generate_embedding.py'', ''hello''] () =
     ''[0.5, NaN]'' @ [CHR 0x0A] \<and>
   exit_status
     (result_of (stub_lib [Finite False 5 (- 1), NaN]) [''generate_embedding.py'', ''hello''] ()) = 0 \<and>
   json_number_array
     (stdout_of (stub_lib [Finite False 5 (- 1), NaN]) [''generate_embedding.py'', ''hello''] ()) =
     None"
proof -
  have "float_text (Finite False 5 (- 1)) = ''0.5''"
    by (simp add: float_text_def float_repr_def float_digits_def float_decpt_def
        fixed_form_def digits_str_def digit_char_def strip_trailing_zeros_def dec_digits.simps)
  then show ?thesis
    using C6_non_finite_values_are_printed
      [of "[''generate_embedding.py'', ''hello'']" "stub_lib [Finite False 5 (- 1), NaN]" "()"
          "''all-MiniLM-L6-v2''" "()" "[Finite False 5 (- 1), NaN]" "[]" "()"]
    by (auto simp: stub_lib_simps tolist_def is_finite_def)
qed

section \<open>What the output depends on\<close>

text \<open>
  C7: two runs of the script on the same command line, started in any two worlds \<open>w\<close>
  and \<open>w'\<close>, print the same text and end the same way, provided both load the same
  model (or fail to load it with the same error) and the encoding does not depend on the
  world. The script adds no nondeterminism of its own.
\<close>

theorem C7_deterministic_output:
  assumes "fst (SentenceTransformer L ''all-MiniLM-L6-v2'' w) =
           fst (SentenceTransformer L ''all-MiniLM-L6-v2'' w')"
    and "\<forall>m texts u u'. fst (encode L m texts u) = fst (encode L m texts u')"
  shows "stdout_of L argv w = stdout_of L argv w' \<and> result_of L argv w = result_of L argv w'"
proof -
  have "(result_of L argv w, stdout_of L argv w) = (result_of L argv w', stdout_of L argv w')"
    unfolding run_observable
    using assms(1) assms(2) [rule_format, of _ _ "snd (SentenceTransformer L MODEL_NAME w)"
        "snd (SentenceTransformer L MODEL_NAME w')"]
    by (simp add: MODEL_NAME_def split: sum.splits)
  then show ?thesis by simp
qed

text \<open>Two runs in different worlds, which they leave different, print the same line.\<close>

theorem C7_witness:
  "stdout_of (counting_lib [Finite False 5 (- 1)]) [''generate_embedding.py'', ''hello''] 0 =
   stdout_of (counting_lib [Finite False 5 (- 1)]) [''generate_embedding.py'', ''hello''] 7 \<and>
   world (snd (generate_embedding (counting_lib [Finite False 5 (- 1)])
      [''generate_embedding.py'', ''hello''] 0)) \<noteq>
   world (snd (generate_embedding (counting_lib [Finite False 5 (- 1)])
      [''generate_embedding.py'', ''hello''] 7))"
proof -
  have "world (snd (generate_embedding (counting_lib [Finite False 5 (- 1)])
          [''generate_embedding.py'', ''hello''] k)) = Suc k" for k
    using run_ok [of "counting_lib [Finite False 5 (- 1)]" k "''all-MiniLM-L6-v2''" "Suc k"
        "[''generate_embedding.py'', ''hello'']" "[Finite False 5 (- 1)]" "[]" "Suc k"]
    by (simp add: counting_lib_simps MODEL_NAME_def json_dumps_def json_dumps_with_def)
  then show ?thesis
    using C7_deterministic_output [of "counting_lib [Finite False 5 (- 1)]" 0 7
      "[''generate_embedding.py'', ''hello'']"]
    by (simp add: counting_lib_simps)
qed

text \<open>
  C8: two invocations with the same first positional argument \<open>text\<close> behave alike,
  whatever the further arguments \<open>extra\<close> and \<open>extra'\<close> (and the script names) are:
  the same result, the same standard output, the same final state.
\<close>

theorem C8_only_first_argument_read:
  "generate_embedding L (prog # text # extra) w = generate_embedding L (prog' # text # extra') w \<and>
   stdout_of L (prog # text # extra) w = stdout_of L (prog' # text # extra') w \<and>
   result_of L (prog # text # extra) w = result_of L (prog' # text # extra') w"
proof -
  have "read_arg (prog # text # extra) = (read_arg (prog' # text # extra') :: ('a, string) act)"
    by (rule ext) (simp add: read_arg_def getitem_def)
  then show ?thesis
    by (simp add: generate_embedding_def stdout_of_def result_of_def)
qed

section \<open>The empty text\<close>

text \<open>
  C9, as the specification states it, fails for the same reason as C1: with the empty
  string as argument and a model that accepts it and returns a row of 384 floats that
  are all NaN, the run does not crash, but what it prints is not a JSON array.
\<close>

theorem C9_counterexample:
  "length (replicate 384 NaN) = 384 \<and>
   result_of (stub_lib (replicate 384 NaN)) [''generate_embedding.py'', ''''] () = Inr () \<and>
   json_number_array
     (stdout_of (stub_lib (replicate 384 NaN)) [''generate_embedding.py'', ''''] ()) = None"
proof -
  let ?L = "stub_lib (replicate 384 NaN) :: (unit, string) lib"
  let ?argv = "[''generate_embedding.py'', '''']"
  have r: "result_of ?L ?argv () = Inr ()"
    and s: "stdout_of ?L ?argv () =
            ''['' @ join '', '' (map float_text (tolist (replicate 384 NaN))) @ '']'' @ [CHR 0x0A]"
    using run_json [of ?argv ?L "()" "''all-MiniLM-L6-v2''" "()" "replicate 384 NaN" "[]" "()"]
    by (simp_all add: stub_lib_simps)
  have "\<not> list_all json_number (map float_text (tolist (replicate 384 NaN)))"
    using float_text_non_finite(1) [of NaN]
    by (simp add: tolist_def list_all_iff is_finite_def)
  then have "json_number_array (stdout_of ?L ?argv ()) = None"
    unfolding s json_number_array_def
    using json_array_of_line [of "map float_text (tolist (replicate 384 NaN))" json_number]
    by (simp add: tolist_def float_text_plain)
  with r show ?thesis by simp
qed

text \<open>
  C9, amended: with the empty string as first positional argument, when the model loads
  and accepts the empty text, returning a first row of 384 components, the run does not
  crash: it succeeds with exit status 0 and prints a single line, the 384 components as
  \<^verbatim>\<open>json.dumps\<close> writes them, in brackets and separated by a comma and a space.
  When the components are all finite, that line is a valid JSON array of exactly 384
  numbers.
\<close>

theorem C9_empty_string_input:
  assumes "SentenceTransformer L ''all-MiniLM-L6-v2'' w = (Inr m, w1)"
    and "encode L m [''''] w1 = (Inr (v # rest), w2)"
    and "dumps L = json_dumps"
    and "length (tolist v) = 384"
  shows "result_of L (prog # '''' # extra) w = Inr () \<and>
         exit_status (result_of L (prog # '''' # extra) w) = 0 \<and>
         single_line (stdout_of L (prog # '''' # extra) w) \<and>
         stdout_of L (prog # '''' # extra) w =
           ''['' @ join '', '' (map float_text (tolist v)) @ '']'' @ [CHR 0x0A] \<and>
         length (map float_text (tolist v)) = 384 \<and>
         (list_all is_finite (tolist v) \<longrightarrow>
            json_number_array (stdout_of L (prog # '''' # extra) w) =
              Some (map float_text (tolist v)))"
proof -
  let ?argv = "prog # '''' # extra"
  let ?ts = "map float_text (tolist v)"
  have r: "result_of L ?argv w = Inr ()"
    and s: "stdout_of L ?argv w = ''['' @ join '', '' ?ts @ '']'' @ [CHR 0x0A]"
    using run_json [of ?argv L w m w1 v rest w2] assms(1-3) by simp_all
  have ne: "?ts \<noteq> []" using assms(4) by auto
  have pl: "\<forall>t\<in>set ?ts. plain_token t" by (simp add: float_text_plain)
  have b: "json_number_array (stdout_of L ?argv w) = Some ?ts" if "list_all is_finite (tolist v)"
  proof -
    from that have "list_all json_number ?ts"
      by (simp add: list_all_iff float_text_finite)
    then show ?thesis
      unfolding s json_number_array_def
      using json_array_of_line [OF ne pl, of json_number] by simp
  qed
  have c: "single_line (stdout_of L ?argv w)"
    unfolding s using pl by (rule single_line_array)
  from r s b c assms(4) show ?thesis
    by (simp add: exit_status_def)
qed

text \<open>The empty text encoded as 384 zeros.\<close>

theorem C9_witness:
  "result_of (stub_lib (replicate 384 (Finite False 0 0))) [''generate_embedding.py'', ''''] () =
     Inr () \<and>
   json_number_array
     (stdout_of (stub_lib (replicate 384 (Finite False 0 0))) [''generate_embedding.py'', ''''] ()) =
     Some (replicate 384 ''0.0'')"
proof -
  let ?v = "replicate 384 (Finite False 0 0)"
  let ?L = "stub_lib ?v :: (unit, string) lib"
  have zero: "float_text (Finite False 0 0) = ''0.0''"
    by (simp add: float_text_def float_repr_def float_digits_def float_decpt_def
        fixed_form_def digits_str_def digit_char_def)
  have h1: "SentenceTransformer ?L ''all-MiniLM-L6-v2'' () = (Inr ''all-MiniLM-L6-v2'', ())"
    and h2: "encode ?L ''all-MiniLM-L6-v2'' [''''] () = (Inr (?v # []), ())"
    and h3: "dumps ?L = json_dumps"
    and h4: "length (tolist ?v) = 384"
    by (simp_all add: stub_lib_simps tolist_def)
  have fin: "list_all is_finite (tolist ?v)"
    by (simp add: tolist_def list_all_iff is_finite_def)
  note t = C9_empty_string_input [OF h1 h2 h3 h4, of "''generate_embedding.py''" "[]"]
  from t have "result_of ?L [''generate_embedding.py'', ''''] () = Inr ()"
    by blast
  moreover from t fin have "json_number_array (stdout_of ?L [''generate_embedding.py'', ''''] ()) =
      Some (map float_text (tolist ?v))"
    by blast
  ultimately show ?thesis
    by (simp add: tolist_def zero)
qed

section \<open>The script's own two partial operations\<close>

text \<open>
  C10: when an argument is supplied and encoding a one-element list returns one row
  whenever it returns, neither subscript of the script raises: the run does not end in
  the script's \<open>IndexError\<close>. The script checks nothing else: whatever the text
  and whatever the row \<open>v\<close> and its length, the run succeeds and prints the line as
  soon as the three library calls succeed.
\<close>

theorem C10_subscripts_in_bounds:
  assumes "1 < length argv"
    and "\<forall>m u rows u'. encode L m [argv ! 1] u = (Inr rows, u') \<longrightarrow> length rows = 1"
  shows "result_of L argv w \<noteq> Inl IndexError \<and>
         (\<forall>m w1 v w2 js.
            SentenceTransformer L ''all-MiniLM-L6-v2'' w = (Inr m, w1) \<longrightarrow>
            encode L m [argv ! 1] w1 = (Inr [v], w2) \<longrightarrow>
            dumps L (tolist v) = Inr js \<longrightarrow>
            result_of L argv w = Inr () \<and> stdout_of L argv w = js @ [CHR 0x0A])"
proof
  show "result_of L argv w \<noteq> Inl IndexError"
  proof (cases rule: run_outcomes [where L = L and w = w and argv = argv])
    case (load_fail n w1)
    from run_load_fail [OF this] show ?thesis by (simp add: result_of_def)
  next
    case (no_arg m w1)
    with assms(1) show ?thesis by simp
  next
    case (encode_fail m w1 n w2)
    from run_encode_fail [OF this] show ?thesis by (simp add: result_of_def)
  next
    case (no_row m w1 w2)
    with assms(2) show ?thesis by fastforce
  next
    case (dumps_fail m w1 v rest w2 n)
    from run_dumps_fail [OF this] show ?thesis by (simp add: result_of_def)
  next
    case (ok m w1 v rest w2 js)
    from run_ok [OF this] show ?thesis by (simp add: result_of_def)
  qed
next
  show "\<forall>m w1 v w2 js.
            SentenceTransformer L ''all-MiniLM-L6-v2'' w = (Inr m, w1) \<longrightarrow>
            encode L m [argv ! 1] w1 = (Inr [v], w2) \<longrightarrow>
            dumps L (tolist v) = Inr js \<longrightarrow>
            result_of L argv w = Inr () \<and> stdout_of L argv w = js @ [CHR 0x0A]"
    using assms(1) run_ok [of L w _ _ argv _ "[]"]
    by (simp add: result_of_def stdout_of_def MODEL_NAME_def tolist_def)
qed

text \<open>The empty text and a row of length zero are both accepted.\<close>

theorem C10_witness:
  "result_of (stub_lib []) [''generate_embedding.py'', ''''] () \<noteq> Inl IndexError \<and>
   result_of (stub_lib []) [''generate_embedding.py'', ''''] () = Inr () \<and>
   stdout_of (stub_lib []) [''generate_embedding.py'', ''''] () = ''[]'' @ [CHR 0x0A]"
  using C10_subscripts_in_bounds [of "[''generate_embedding.py'', '''']" "stub_lib []" "()"]
  by (simp add: stub_lib_simps tolist_def json_dumps_def json_dumps_with_def)

end
